theory Spec2Isabelle
  imports Complex_Main "HOL-Library.Sublist"
begin

section \<open>Values, exceptions and the environment\<close>

text \<open>
  The account document is JSON: \<open>json.load\<close> returns nested Python values and
  \<open>json.dump\<close> writes them back. A Python dict is an association list whose keys are
  distinct; \<open>map_of\<close> is the lookup.
\<close>

datatype json =
    JNull
  | JBool bool
  | JInt int
  | JFloat real
  | JStr string
  | JList "json list"
  | JObj "(string \<times> json) list"

text \<open>The Python exceptions that the modelled code can raise.\<close>

datatype exn =
    OSError
  | UnboundLocalError
  | KeyError
  | TypeError
  | IndexError
  | AttributeError
  | RuntimeError

text \<open>
  What the code takes from outside: \<open>hashlib.sha256(...).hexdigest()\<close>, the environment
  variable \<open>FINNOVA_PASSWORD_SALT\<close>, \<open>datetime.now().isoformat()\<close>, the distance of
  \<open>face_recognition.face_distance\<close> (a floating-point Euclidean norm), the order in which
  CPython iterates a set of strings, and \<open>str\<close> on a value that is not a string.
\<close>

record env =
  sha256_hex :: "string \<Rightarrow> string"
  password_salt :: "string option"
  now_iso :: string
  face_distance :: "real list \<Rightarrow> real list \<Rightarrow> real"
  set_order :: "string list \<Rightarrow> string list"
  repr :: "json \<Rightarrow> string"

section \<open>The two stores and the files behind them\<close>

text \<open>
  \<open>self.data\<close>: after \<open>load_data\<close> the six required keys are present with their
  types; \<open>other\<close> holds every further key of the loaded dict.
\<close>

record document =
  income :: "json list"
  expenses :: "json list"
  categories :: "json list"
  budget :: "(string \<times> json) list"
  goals :: "json list"
  users :: "json list"
  other :: "(string \<times> json) list"

text \<open>\<open>self.face_data\<close>: the dict \<open>{'encodings': [...], 'usernames': [...]}\<close>.\<close>

record face_store =
  encodings :: "real list list"
  usernames :: "string list"

text \<open>The unpickled content of the face file: either key may be missing.\<close>

record pickled =
  p_encodings :: "real list list option"
  p_usernames :: "string list option"

text \<open>A file is absent, cut short by a failed write, or holds a complete value.\<close>

datatype 'a disk_file = Absent | Truncated | Stored 'a

text \<open>
  The I/O calls of one save that can raise \<open>OSError\<close>, in the order the code makes them.
  After the first one that raises nothing else of the \<open>try\<close> block runs, so one save
  meets at most one of them, and then possibly a failing \<open>os.remove\<close> of the temporary
  file in its clean-up.
\<close>

datatype io_step = Makedirs | OpenTmp | Dump | RemoveOld | Rename

datatype fault = Fault (fails_at: "io_step option") (cleanup_fails: bool)

record state =
  data :: document
  face_data :: face_store
  data_file :: "json disk_file"
  data_tmp :: "json disk_file"
  face_file :: "pickled disk_file"
  face_tmp :: "pickled disk_file"
  faults :: "fault list"
  notified :: nat

definition required_keys :: "string list" where
  "required_keys = [''income'', ''expenses'', ''categories'', ''budget'', ''goals'', ''users'']"

definition default_document :: document where
  "default_document =
     \<lparr>income = [], expenses = [], categories = [], budget = [], goals = [], users = [],
      other = []\<rparr>"

definition default_face_store :: face_store where
  "default_face_store = \<lparr>encodings = [], usernames = []\<rparr>"

text \<open>The dict that \<open>json.dump\<close> receives.\<close>

definition document_items :: "document \<Rightarrow> (string \<times> json) list" where
  "document_items d =
     [(''income'', JList (income d)), (''expenses'', JList (expenses d)),
      (''categories'', JList (categories d)), (''budget'', JObj (budget d)),
      (''goals'', JList (goals d)), (''users'', JList (users d))] @ other d"

definition document_json :: "document \<Rightarrow> json" where
  "document_json d = JObj (document_items d)"

definition pickle :: "face_store \<Rightarrow> pickled" where
  "pickle f = \<lparr>p_encodings = Some (encodings f), p_usernames = Some (usernames f)\<rparr>"

section \<open>Saving\<close>

text \<open>Each save takes the next entry of the fault schedule; an empty schedule has no fault.\<close>

definition next_fault :: "state \<Rightarrow> fault \<times> state" where
  "next_fault s =
     (case faults s of [] \<Rightarrow> (Fault None False, s) | f # fs \<Rightarrow> (f, s\<lparr>faults := fs\<rparr>))"

text \<open>
  The body of the \<open>try\<close> block shared by \<open>save_data\<close> and \<open>save_face_data\<close>:
  \<open>os.makedirs\<close>, \<open>open(temp, 'w')\<close>, the dump, \<open>os.remove\<close> of the primary file when
  it exists, \<open>os.rename(temp, primary)\<close>. The result is whether the block ran to its end,
  the primary file and the temporary file.
\<close>

fun write_steps :: "io_step option \<Rightarrow> 'a \<Rightarrow> 'a disk_file \<Rightarrow> 'a disk_file \<Rightarrow> bool \<times> 'a disk_file \<times> 'a disk_file" where
  "write_steps (Some Makedirs) v p t = (False, p, t)"
| "write_steps (Some OpenTmp) v p t = (False, p, t)"
| "write_steps (Some Dump) v p t = (False, p, Truncated)"
| "write_steps (Some RemoveOld) v p t =
     (if p = Absent then (True, Stored v, Absent) else (False, p, Stored v))"
| "write_steps (Some Rename) v p t = (False, Absent, Stored v)"
| "write_steps None v p t = (True, Stored v, Absent)"

text \<open>
  \<open>Database.save_data\<close> (core.py 86-117). \<open>temp_file\<close> is \<open>None\<close> until
  \<open>os.makedirs\<close> has returned; the \<open>finally\<close> block removes the temporary file when
  the name is set and the file exists, and an \<open>os.remove\<close> that raises there leaves the
  function as an exception. Observers are notified after a successful save.
\<close>

definition save_data :: "document option \<Rightarrow> state \<Rightarrow> (exn + bool) \<times> state" where
  "save_data d s0 =
     (let (ft, s) = next_fault s0;
          data_to_save = (case d of None \<Rightarrow> data s | Some x \<Rightarrow> x);
          (success, p, t) =
             write_steps (fails_at ft) (document_json data_to_save) (data_file s) (data_tmp s);
          s1 = s\<lparr>data_file := p, data_tmp := t\<rparr>
      in if fails_at ft = Some Makedirs then (Inr False, s1)
         else if t \<noteq> Absent \<and> cleanup_fails ft then (Inl OSError, s1)
         else if success then (Inr True, s1\<lparr>data_tmp := Absent, notified := Suc (notified s1)\<rparr>)
         else (Inr False, s1\<lparr>data_tmp := Absent\<rparr>))"

text \<open>
  \<open>Database.save_face_data\<close> (core.py 119-137). \<open>temp_file\<close> is assigned inside the
  \<open>try\<close> block after \<open>os.makedirs\<close>; the handler reads it, so a failing
  \<open>os.makedirs\<close> ends in \<open>UnboundLocalError\<close> raised from the handler.
\<close>

definition save_face_data :: "state \<Rightarrow> (exn + bool) \<times> state" where
  "save_face_data s0 =
     (let (ft, s) = next_fault s0;
          (success, p, t) =
             write_steps (fails_at ft) (pickle (face_data s)) (face_file s) (face_tmp s);
          s1 = s\<lparr>face_file := p, face_tmp := t\<rparr>
      in if success then (Inr True, s1)
         else if fails_at ft = Some Makedirs then (Inl UnboundLocalError, s1)
         else if t = Absent then (Inr False, s1)
         else if cleanup_fails ft then (Inl OSError, s1)
         else (Inr False, s1\<lparr>face_tmp := Absent\<rparr>))"

section \<open>Python operations on values\<close>

text \<open>Truth value of a Python object, as \<open>if c\<close> and \<open>not v\<close> test it.\<close>

fun truthy :: "json \<Rightarrow> bool" where
  "truthy JNull = False"
| "truthy (JBool b) = b"
| "truthy (JInt n) = (n \<noteq> 0)"
| "truthy (JFloat r) = (r \<noteq> 0)"
| "truthy (JStr s) = (s \<noteq> [])"
| "truthy (JList xs) = (xs \<noteq> [])"
| "truthy (JObj kvs) = (kvs \<noteq> [])"

text \<open>\<open>v[key]\<close> with a string key: \<open>KeyError\<close> on a dict without the key, \<open>TypeError\<close> on
  everything that is not a dict.\<close>

fun getitem :: "json \<Rightarrow> string \<Rightarrow> exn + json" where
  "getitem (JObj kvs) k = (case map_of kvs k of None \<Rightarrow> Inl KeyError | Some v \<Rightarrow> Inr v)"
| "getitem v k = Inl TypeError"

text \<open>\<open>v.get(key)\<close>: \<open>None\<close> for a missing key; only a dict has the method.\<close>

fun dict_get :: "json \<Rightarrow> string \<Rightarrow> exn + json" where
  "dict_get (JObj kvs) k = Inr (case map_of kvs k of None \<Rightarrow> JNull | Some v \<Rightarrow> v)"
| "dict_get v k = Inl AttributeError"

text \<open>\<open>xs.index(x)\<close> where \<open>x in xs\<close> has been tested, and \<open>xs.pop(i)\<close> for \<open>i\<close> in range.\<close>

fun index_of :: "'a list \<Rightarrow> 'a \<Rightarrow> nat" where
  "index_of [] x = 0"
| "index_of (y # ys) x = (if y = x then 0 else Suc (index_of ys x))"

definition pop :: "nat \<Rightarrow> 'a list \<Rightarrow> 'a list" where
  "pop i xs = take i xs @ drop (Suc i) xs"

section \<open>Looking users up\<close>

text \<open>\<open>any(user['username'] == username for user in self.data['users'])\<close> (core.py 325):
  the generator stops at the first match, and an entry without the key raises before it.\<close>

fun user_exists_in :: "json list \<Rightarrow> string \<Rightarrow> exn + bool" where
  "user_exists_in [] name = Inr False"
| "user_exists_in (u # us) name =
     (case getitem u ''username'' of
        Inl e \<Rightarrow> Inl e
      | Inr v \<Rightarrow> if v = JStr name then Inr True else user_exists_in us name)"

definition user_exists :: "state \<Rightarrow> string \<Rightarrow> exn + bool" where
  "user_exists s name = user_exists_in (users (data s)) name"

text \<open>\<open>next((u for u in self.data['users'] if u['username'] == username), None)\<close>.\<close>

fun find_user :: "json list \<Rightarrow> string \<Rightarrow> exn + json option" where
  "find_user [] name = Inr None"
| "find_user (u # us) name =
     (case getitem u ''username'' of
        Inl e \<Rightarrow> Inl e
      | Inr v \<Rightarrow> if v = JStr name then Inr (Some u) else find_user us name)"

text \<open>\<open>[u for u in self.data["users"] if u["username"] != username]\<close>.\<close>

fun users_without :: "json list \<Rightarrow> string \<Rightarrow> exn + json list" where
  "users_without [] name = Inr []"
| "users_without (u # us) name =
     (case getitem u ''username'' of
        Inl e \<Rightarrow> Inl e
      | Inr v \<Rightarrow>
          (case users_without us name of
             Inl e \<Rightarrow> Inl e
           | Inr r \<Rightarrow> Inr (if v \<noteq> JStr name then u # r else r)))"

text \<open>\<open>[u["username"] for u in self.data["users"]]\<close>.\<close>

fun usernames_of :: "json list \<Rightarrow> exn + json list" where
  "usernames_of [] = Inr []"
| "usernames_of (u # us) =
     (case getitem u ''username'' of
        Inl e \<Rightarrow> Inl e
      | Inr v \<Rightarrow> (case usernames_of us of Inl e \<Rightarrow> Inl e | Inr r \<Rightarrow> Inr (v # r)))"

section \<open>Passwords\<close>

text \<open>\<open>Database._hash_password\<close> (core.py 313-321): \<open>None\<close> for an empty password,
  otherwise the hex digest of password, pepper and salt.\<close>

definition salt :: "env \<Rightarrow> string" where
  "salt env = (case password_salt env of None \<Rightarrow> ''default_salt_value'' | Some v \<Rightarrow> v)"

definition hash_password :: "env \<Rightarrow> string \<Rightarrow> string option" where
  "hash_password env password =
     (if password = [] then None
      else Some (sha256_hex env (password @ ''finnova_secret_pepper'' @ salt env)))"

definition json_of_hash :: "string option \<Rightarrow> json" where
  "json_of_hash h = (case h of None \<Rightarrow> JNull | Some d \<Rightarrow> JStr d)"

text \<open>\<open>Database.authenticate_password\<close> (core.py 276-281).\<close>

definition authenticate_password :: "env \<Rightarrow> state \<Rightarrow> string \<Rightarrow> string \<Rightarrow> exn + bool" where
  "authenticate_password env s username password =
     (case find_user (users (data s)) username of
        Inl e \<Rightarrow> Inl e
      | Inr None \<Rightarrow> Inr False
      | Inr (Some user) \<Rightarrow>
          (if \<not> truthy user then Inr False
           else case getitem user ''password_hash'' of
                  Inl e \<Rightarrow> Inl e
                | Inr h \<Rightarrow>
                    if \<not> truthy h then Inr False
                    else Inr (h = json_of_hash (hash_password env password))))"

text \<open>\<open>Database.get_user_auth_methods\<close> (core.py 327-337).\<close>

definition get_user_auth_methods :: "state \<Rightarrow> string \<Rightarrow> exn + string list" where
  "get_user_auth_methods s username =
     (case find_user (users (data s)) username of
        Inl e \<Rightarrow> Inl e
      | Inr None \<Rightarrow> Inr []
      | Inr (Some user) \<Rightarrow>
          (if \<not> truthy user then Inr []
           else case dict_get user ''password_hash'' of
                  Inl e \<Rightarrow> Inl e
                | Inr h \<Rightarrow>
                    (case dict_get user ''face_encoding'' of
                       Inl e \<Rightarrow> Inl e
                     | Inr f \<Rightarrow>
                         Inr ((if truthy h then [''password''] else []) @
                              (if truthy f then [''face''] else [])))))"

section \<open>Registration\<close>

text \<open>\<open>if password\<close>: a password that is neither \<open>None\<close> nor empty.\<close>

definition password_given :: "string option \<Rightarrow> bool" where
  "password_given password = (case password of None \<Rightarrow> False | Some p \<Rightarrow> p \<noteq> [])"

text \<open>The methods list built at core.py 185-192.\<close>

definition auth_methods_of :: "string option \<Rightarrow> real list option \<Rightarrow> string list" where
  "auth_methods_of password face_encoding =
     (if password_given password then [''password''] else []) @
     (if face_encoding \<noteq> None then [''face''] else [])"

text \<open>The \<open>user_data\<close> dict of core.py 180-186.\<close>

definition user_data :: "env \<Rightarrow> string \<Rightarrow> string option \<Rightarrow> real list option \<Rightarrow> json" where
  "user_data env username password face_encoding =
     JObj [(''username'', JStr username),
           (''password_hash'',
              (case password of None \<Rightarrow> JNull | Some p \<Rightarrow> json_of_hash (hash_password env p))),
           (''face_encoding'',
              (case face_encoding of None \<Rightarrow> JNull | Some e \<Rightarrow> JList (map JFloat e))),
           (''registration_date'', JStr (now_iso env)),
           (''auth_methods'', JList (map JStr (auth_methods_of password face_encoding)))]"

text \<open>
  The removal of an enrolment (core.py 224-227 and 239-242):
  \<open>idx = usernames.index(username)\<close>, \<open>usernames.pop(idx)\<close>, \<open>encodings.pop(idx)\<close>,
  \<open>self.save_face_data()\<close>, whose result is not read. The second \<open>pop\<close> raises
  \<open>IndexError\<close> when \<open>encodings\<close> is too short.
\<close>

definition remove_face :: "string \<Rightarrow> state \<Rightarrow> (exn + unit) \<times> state" where
  "remove_face username s =
     (let fd = face_data s;
          idx = index_of (usernames fd) username;
          s1 = s\<lparr>face_data := fd\<lparr>usernames := pop idx (usernames fd)\<rparr>\<rparr>
      in if idx < length (encodings fd) then
           (let s2 = s1\<lparr>face_data := (face_data s1)\<lparr>encodings := pop idx (encodings fd)\<rparr>\<rparr>;
                (r, s3) = save_face_data s2
            in (case r of Inl e \<Rightarrow> (Inl e, s3) | Inr b \<Rightarrow> (Inr (), s3)))
         else (Inl IndexError, s1))"

text \<open>
  The handler of the outer \<open>try\<close> (core.py 233-243), "cleanup partial registration": it
  drops the user from \<open>self.data["users"]\<close> and removes the enrolment; what raises in it
  leaves \<open>register_user\<close> as an exception.
\<close>

definition cleanup_partial :: "string \<Rightarrow> bool \<Rightarrow> state \<Rightarrow> (exn + bool) \<times> state" where
  "cleanup_partial username has_face s =
     (case usernames_of (users (data s)) of
        Inl e \<Rightarrow> (Inl e, s)
      | Inr names \<Rightarrow>
          (case (if JStr username \<in> set names then users_without (users (data s)) username
                 else Inr (users (data s))) of
             Inl e \<Rightarrow> (Inl e, s)
           | Inr us \<Rightarrow>
               (let s1 = s\<lparr>data := (data s)\<lparr>users := us\<rparr>\<rparr>
                in if has_face \<and> username \<in> set (usernames (face_data s1)) then
                     (case remove_face username s1 of
                        (Inl e, s2) \<Rightarrow> (Inl e, s2)
                      | (Inr u, s2) \<Rightarrow> (Inr False, s2))
                   else (Inr False, s1))))"

text \<open>
  core.py 220-231: \<open>save_data\<close> and, when it returns \<open>False\<close>, the removal of the
  enrolment. An exception of \<open>save_data\<close> or of the removal goes to the outer handler.
\<close>

definition commit_user :: "string \<Rightarrow> bool \<Rightarrow> state \<Rightarrow> (exn + bool) \<times> state" where
  "commit_user username has_face s =
     (case save_data None s of
        (Inl e, s1) \<Rightarrow> cleanup_partial username has_face s1
      | (Inr True, s1) \<Rightarrow> (Inr True, s1)
      | (Inr False, s1) \<Rightarrow>
          (if has_face \<and> username \<in> set (usernames (face_data s1)) then
             (case remove_face username s1 of
                (Inl e, s2) \<Rightarrow> cleanup_partial username has_face s2
              | (Inr u, s2) \<Rightarrow> (Inr False, s2))
           else (Inr False, s1)))"

text \<open>
  core.py 203-218: both lists of the face store get their new entry, then
  \<open>save_face_data\<close>; a \<open>False\<close> (turned into \<open>RuntimeError\<close>) or an exception goes to
  the inner handler, which drops the user from \<open>self.data["users"]\<close> and returns
  \<open>False\<close>. The result is \<open>Inr\<close> of the state to go on with, or \<open>Inl\<close> of what
  \<open>register_user\<close> ends with.
\<close>

definition store_face ::
    "string \<Rightarrow> real list \<Rightarrow> state \<Rightarrow> ((exn + bool) \<times> state) + state" where
  "store_face username face_encoding s =
     (let fd = face_data s;
          s1 = s\<lparr>face_data := fd\<lparr>encodings := encodings fd @ [face_encoding],
                                   usernames := usernames fd @ [username]\<rparr>\<rparr>
      in case save_face_data s1 of
           (Inr True, s2) \<Rightarrow> Inr s2
         | (r, s2) \<Rightarrow>
             (case users_without (users (data s2)) username of
                Inl e \<Rightarrow> Inl (cleanup_partial username True s2)
              | Inr us \<Rightarrow> Inl (Inr False, s2\<lparr>data := (data s2)\<lparr>users := us\<rparr>\<rparr>)))"

text \<open>
  \<open>Database.register_user\<close> (core.py 139-243). The username is a string, the password
  \<open>None\<close> or a string, the face encoding \<open>None\<close> or a sequence of numbers. The two
  opening checks are outside the \<open>try\<close>.
\<close>

definition register_user ::
    "env \<Rightarrow> string \<Rightarrow> string option \<Rightarrow> real list option \<Rightarrow> state \<Rightarrow> (exn + bool) \<times> state" where
  "register_user env username password face_encoding s =
     (if username = [] then (Inr False, s)
      else case user_exists s username of
             Inl e \<Rightarrow> (Inl e, s)
           | Inr True \<Rightarrow> (Inr False, s)
           | Inr False \<Rightarrow>
               (if (case face_encoding of None \<Rightarrow> False | Some e \<Rightarrow> length e \<noteq> 128)
                then (Inr False, s)
                else if auth_methods_of password face_encoding = [] then (Inr False, s)
                else
                  (let d = data s;
                       s1 = s\<lparr>data := d\<lparr>users := users d @
                                          [user_data env username password face_encoding]\<rparr>\<rparr>
                   in case face_encoding of
                        None \<Rightarrow> commit_user username False s1
                      | Some e \<Rightarrow>
                          (case store_face username e s1 of
                             Inl result \<Rightarrow> result
                           | Inr s2 \<Rightarrow> commit_user username True s2))))"

section \<open>Face matching\<close>

text \<open>
  \<open>face_recognition.compare_faces\<close>, the library function the code calls: it is
  \<open>list(face_distance(known, probe) <= tolerance)\<close>, one truth value per known encoding.
\<close>

definition compare_faces :: "env \<Rightarrow> real list list \<Rightarrow> real list \<Rightarrow> real \<Rightarrow> bool list" where
  "compare_faces env known probe tolerance =
     map (\<lambda>e. face_distance env e probe \<le> tolerance) known"

text \<open>
  \<open>Database.authenticate_face\<close> (core.py 283-311): \<open>matches.index(True)\<close> is the first
  enrolled entry within the tolerance; \<open>usernames[idx]\<close> raises \<open>IndexError\<close> when the
  list is too short.
\<close>

definition authenticate_face :: "env \<Rightarrow> state \<Rightarrow> real list \<Rightarrow> exn + string option" where
  "authenticate_face env s face_encoding =
     (if encodings (face_data s) = [] then Inr None
      else
        (let matches = compare_faces env (encodings (face_data s)) face_encoding (4 / 10)
         in if True \<in> set matches then
              (let idx = index_of matches True
               in if idx < length (usernames (face_data s)) then
                    (let username = usernames (face_data s) ! idx
                     in case user_exists s username of
                          Inl e \<Rightarrow> Inl e
                        | Inr True \<Rightarrow> Inr (Some username)
                        | Inr False \<Rightarrow> Inr None)
                  else Inl IndexError)
            else Inr None))"


text \<open>\<open>np.argmin\<close>: the first index of the least element.\<close>

definition argmin :: "real list \<Rightarrow> nat" where
  "argmin ds = index_of ds (min_list ds)"

text \<open>
  One attempt of \<open>FaceAuthenticator.authenticate\<close> (face_auth.py 366-385) on a given
  encoding, with a non-empty list of known encodings: the entry at the least distance is the
  one tested, against \<open>compare_faces\<close> with tolerance 0.4 and against
  \<open>1 - confidence_threshold\<close>. An exception inside the attempt is caught there and no
  username is returned.
\<close>

definition face_authenticate ::
    "env \<Rightarrow> state \<Rightarrow> real list list \<Rightarrow> string list \<Rightarrow> real list \<Rightarrow> real \<Rightarrow> string option" where
  "face_authenticate env s known names current_encoding confidence_threshold =
     (if known = [] then None
      else
        (let matches = compare_faces env known current_encoding (4 / 10);
             face_distances = map (\<lambda>e. face_distance env e current_encoding) known;
             best_match_index = argmin face_distances
         in if matches ! best_match_index \<and>
               face_distances ! best_match_index < 1 - confidence_threshold then
              (if best_match_index < length names then
                 (case user_exists s (names ! best_match_index) of
                    Inr True \<Rightarrow> Some (names ! best_match_index)
                  | r \<Rightarrow> None)
               else None)
            else None))"

section \<open>The password authenticator\<close>

text \<open>\<open>TraditionalAuthenticator._hash_password\<close> (traditional.py 253-260).\<close>

definition traditional_hash :: "env \<Rightarrow> string \<Rightarrow> string option" where
  "traditional_hash env password =
     (if password = [] then None
      else Some (sha256_hex env (''finnova_salt_'' @ password @ ''_secret_pepper'')))"

text \<open>
  \<open>TraditionalAuthenticator.register_user\<close> (traditional.py 12-27): the digest of the
  password is what \<open>Database.register_user\<close> receives as its password.
\<close>

definition traditional_register ::
    "env \<Rightarrow> string \<Rightarrow> string \<Rightarrow> state \<Rightarrow> (exn + bool) \<times> state" where
  "traditional_register env username password s =
     (if username = [] \<or> password = [] then (Inr False, s)
      else case user_exists s username of
             Inl e \<Rightarrow> (Inl e, s)
           | Inr True \<Rightarrow> (Inr False, s)
           | Inr False \<Rightarrow> register_user env username (traditional_hash env password) None s)"

text \<open>\<open>TraditionalAuthenticator.authenticate\<close> (traditional.py 29-41); on success it
  also records the user as the current one.\<close>

definition traditional_authenticate :: "env \<Rightarrow> state \<Rightarrow> string \<Rightarrow> string \<Rightarrow> exn + bool" where
  "traditional_authenticate env s username password =
     (if username = [] \<or> password = [] then Inr False
      else case traditional_hash env password of
             None \<Rightarrow> Inr False
           | Some hashed_password \<Rightarrow> authenticate_password env s username hashed_password)"

text \<open>
  \<open>TraditionalAuthenticator.change_password\<close> (traditional.py 43-57). Its last step calls
  \<open>db_instance.update_user_password\<close>; class \<open>Database\<close> (core.py 13-376) defines no
  attribute of that name, so the lookup raises \<open>AttributeError\<close>, which nothing in the
  function catches.
\<close>

definition change_password ::
    "env \<Rightarrow> string \<Rightarrow> string \<Rightarrow> string \<Rightarrow> state \<Rightarrow> (exn + bool) \<times> state" where
  "change_password env username old_password new_password s =
     (case (if old_password \<noteq> [] then traditional_authenticate env s username old_password
            else Inr True) of
        Inl e \<Rightarrow> (Inl e, s)
      | Inr False \<Rightarrow> (Inr False, s)
      | Inr True \<Rightarrow>
          (if length new_password < 8 then (Inr False, s)
           else (Inl AttributeError, s)))"

section \<open>Loading\<close>

text \<open>\<open>str(c)\<close>: a string is itself.\<close>

definition py_str :: "env \<Rightarrow> json \<Rightarrow> string" where
  "py_str env c = (case c of JStr x \<Rightarrow> x | v \<Rightarrow> repr env v)"

text \<open>\<open>list({str(c) for c in data['categories'] if c})\<close> (core.py 54): the set keeps one
  copy of each string, and the list has them in the set's iteration order.\<close>

definition clean_categories :: "env \<Rightarrow> json list \<Rightarrow> json list" where
  "clean_categories env cs =
     map JStr (set_order env (remdups (map (py_str env) (filter truthy cs))))"

text \<open>The repair loop of core.py 39-50: a key that is missing or of the wrong type gets
  the empty value of its type.\<close>

definition list_field :: "(string \<times> json) list \<Rightarrow> string \<Rightarrow> json list" where
  "list_field kvs k = (case map_of kvs k of Some (JList xs) \<Rightarrow> xs | x \<Rightarrow> [])"

definition dict_field :: "(string \<times> json) list \<Rightarrow> string \<Rightarrow> (string \<times> json) list" where
  "dict_field kvs k = (case map_of kvs k of Some (JObj m) \<Rightarrow> m | x \<Rightarrow> [])"

definition repair :: "env \<Rightarrow> (string \<times> json) list \<Rightarrow> document" where
  "repair env kvs =
     \<lparr>income = list_field kvs ''income'',
      expenses = list_field kvs ''expenses'',
      categories = clean_categories env (list_field kvs ''categories''),
      budget = dict_field kvs ''budget'',
      goals = list_field kvs ''goals'',
      users = list_field kvs ''users'',
      other = filter (\<lambda>kv. fst kv \<notin> set required_keys) kvs\<rparr>"

text \<open>
  \<open>Database.load_data\<close> (core.py 21-67). A missing file gives the default document, which
  is saved first. A file that cannot be read or parsed, and a top-level value that is not a
  dict (the repair loop raises \<open>TypeError\<close> on it), end in the handler, which returns the
  default document. \<open>read_fails\<close> says that \<open>open\<close> or \<open>json.load\<close> raises.
\<close>

definition load_data :: "env \<Rightarrow> bool \<Rightarrow> state \<Rightarrow> document \<times> state" where
  "load_data env read_fails s =
     (case data_file s of
        Absent \<Rightarrow>
          (case save_data (Some default_document) s of
             (Inl e, s1) \<Rightarrow> (default_document, s1)
           | (Inr b, s1) \<Rightarrow> (repair env (document_items default_document), s1))
      | Truncated \<Rightarrow> (default_document, s)
      | Stored j \<Rightarrow>
          (if read_fails then (default_document, s)
           else case j of
                  JObj kvs \<Rightarrow> (repair env kvs, s)
                | v \<Rightarrow> (default_document, s)))"

text \<open>\<open>Database.load_face_data\<close> (core.py 69-84).\<close>

definition load_face_data :: "bool \<Rightarrow> state \<Rightarrow> face_store" where
  "load_face_data read_fails s =
     (case face_file s of
        Absent \<Rightarrow> default_face_store
      | Truncated \<Rightarrow> default_face_store
      | Stored p \<Rightarrow>
          (if read_fails then default_face_store
           else case (p_encodings p, p_usernames p) of
                  (Some e, Some u) \<Rightarrow> \<lparr>encodings = e, usernames = u\<rparr>
                | x \<Rightarrow> default_face_store))"

section \<open>A concrete environment and concrete states\<close>

text \<open>
  An environment to run the model on: the digest keeps its input behind a marker (so it is
  never empty and never collides), no salt variable is set, the distance is the Euclidean
  norm of the difference, and a set is iterated in insertion order.
\<close>

definition example_env :: env where
  "example_env =
     \<lparr>sha256_hex = (\<lambda>x. CHR ''#'' # x),
      password_salt = None,
      now_iso = ''2024-01-01T00:00:00'',
      face_distance = (\<lambda>a b. sqrt (sum_list (map2 (\<lambda>x y. (x - y)\<^sup>2) a b))),
      set_order = (\<lambda>xs. xs),
      repr = (\<lambda>v. ''?'')\<rparr>"

text \<open>A 128-number embedding whose first coordinate is \<open>x\<close>.\<close>

definition emb :: "real \<Rightarrow> real list" where
  "emb x = x # replicate 127 0"

text \<open>The state of a fresh installation: no files, empty stores.\<close>

definition initial_state :: state where
  "initial_state =
     \<lparr>data = default_document, face_data = default_face_store,
      data_file = Absent, data_tmp = Absent, face_file = Absent, face_tmp = Absent,
      faults = [], notified = 0\<rparr>"

text \<open>Two users enrolled by face, one after the other, from the fresh installation.\<close>

definition alice_bob_state :: state where
  "alice_bob_state =
     snd (register_user example_env ''bob'' None (Some (emb (38 / 100)))
       (snd (register_user example_env ''alice'' None (Some (emb 0)) initial_state)))"


text \<open>The state after a registration by face whose \<open>save_face_data\<close> failed.\<close>

definition orphan_state :: state where
  "orphan_state =
     snd (register_user example_env ''bob'' None (Some (emb 1))
            (initial_state\<lparr>faults := [Fault (Some Dump) False]\<rparr>))"

text \<open>Two account documents: one with a category twice, one with every key in use.\<close>

definition dup_document :: document where
  "dup_document = default_document\<lparr>categories := [JStr ''Food'', JStr ''Food'']\<rparr>"

definition sample_document :: document where
  "sample_document =
     \<lparr>income = [JObj [(''amount'', JInt 100)]], expenses = [],
      categories = [JStr ''Food'', JStr ''Rent''],
      budget = [(''Food'', JFloat (5 / 2))], goals = [],
      users = [user_data example_env ''alice'' (Some ''longpassword1'') None],
      other = [(''theme'', JStr ''dark'')]\<rparr>"

section \<open>The invariant of the face store\<close>

text \<open>The enrolled pairs: entry \<open>i\<close> of \<open>usernames\<close> with entry \<open>i\<close> of \<open>encodings\<close>.\<close>

definition face_pairs :: "state \<Rightarrow> (string \<times> real list) list" where
  "face_pairs s = zip (usernames (face_data s)) (encodings (face_data s))"

text \<open>The two sequences have the same length.\<close>

definition parallel :: "state \<Rightarrow> bool" where
  "parallel s = (length (encodings (face_data s)) = length (usernames (face_data s)))"

text \<open>A later state whose sequences are parallel and whose pairs are pairs of the earlier
  state, in the same order.\<close>

definition keeps :: "state \<Rightarrow> state \<Rightarrow> bool" where
  "keeps s s' = (parallel s' \<and> subseq (face_pairs s') (face_pairs s))"

text \<open>The two appends of core.py 209-210.\<close>

definition enrol :: "string \<Rightarrow> real list \<Rightarrow> state \<Rightarrow> state" where
  "enrol username e s =
     s\<lparr>face_data := (face_data s)\<lparr>encodings := encodings (face_data s) @ [e],
                                    usernames := usernames (face_data s) @ [username]\<rparr>\<rparr>"

section \<open>Lists and saves\<close>

text \<open>The definitions that evaluate the model on a concrete state.\<close>

lemmas eval_defs = register_user_def user_exists_def commit_user_def save_data_def next_fault_def
  auth_methods_of_def password_given_def user_data_def hash_password_def json_of_hash_def salt_def
  document_json_def document_items_def default_document_def default_face_store_def
  get_user_auth_methods_def authenticate_password_def cleanup_partial_def remove_face_def
  save_face_data_def store_face_def pickle_def pop_def initial_state_def example_env_def

lemma emb_distance: "face_distance example_env (emb x) (emb y) = \<bar>x - y\<bar>"
  by (simp add: example_env_def emb_def zip_replicate sum_list_replicate)

lemma alice_bob_faces:
  "face_data alice_bob_state =
     \<lparr>encodings = [emb 0, emb (38 / 100)], usernames = [''alice'', ''bob'']\<rparr>"
  by (simp add: alice_bob_state_def eval_defs emb_def)

lemma alice_bob_users:
  "users (data alice_bob_state) =
     [user_data example_env ''alice'' None (Some (emb 0)),
      user_data example_env ''bob'' None (Some (emb (38 / 100)))]"
  by (simp add: alice_bob_state_def eval_defs emb_def)

lemma subseq_drop_Suc: "subseq (drop (Suc i) xs) (drop i xs)"
proof (cases "i < length xs")
  case True
  then have "drop i xs = xs ! i # drop (Suc i) xs"
    by (simp add: Cons_nth_drop_Suc)
  then show ?thesis by (simp add: list_emb_Cons)
next
  case False
  then show ?thesis by simp
qed

lemma subseq_pop: "subseq (pop i xs) xs"
proof -
  have "subseq (take i xs @ drop (Suc i) xs) (take i xs @ drop i xs)"
    by (rule list_emb_append_mono) (simp_all add: subseq_drop_Suc)
  then show ?thesis by (simp add: pop_def)
qed

lemma zip_pop: "length xs = length ys \<Longrightarrow> zip (pop i xs) (pop i ys) = pop i (zip xs ys)"
  by (simp add: pop_def take_zip drop_zip)

lemma length_pop: "length xs = length ys \<Longrightarrow> length (pop i xs) = length (pop i ys)"
  by (simp add: pop_def)

lemma pop_beyond: "length xs \<le> i \<Longrightarrow> pop i xs = xs"
  by (simp add: pop_def)

lemma keeps_refl: "parallel s \<Longrightarrow> keeps s s"
  by (simp add: keeps_def)

lemma keeps_trans: "keeps s t \<Longrightarrow> keeps t u \<Longrightarrow> keeps s u"
  by (auto simp: keeps_def intro: subseq_order.order_trans)

lemma next_fault_fields [simp]:
  "data (snd (next_fault s)) = data s"
  "face_data (snd (next_fault s)) = face_data s"
  "data_file (snd (next_fault s)) = data_file s"
  "data_tmp (snd (next_fault s)) = data_tmp s"
  "face_file (snd (next_fault s)) = face_file s"
  "face_tmp (snd (next_fault s)) = face_tmp s"
  "notified (snd (next_fault s)) = notified s"
  by (simp_all add: next_fault_def split: list.splits)

lemma save_face_data_face: "face_data (snd (save_face_data s)) = face_data s"
  by (simp add: save_face_data_def Let_def case_prod_beta)

lemma save_data_face: "face_data (snd (save_data d s)) = face_data s"
  by (simp add: save_data_def Let_def case_prod_beta)

lemma save_face_data_data: "data (snd (save_face_data s)) = data s"
  by (simp add: save_face_data_def Let_def case_prod_beta)

lemma keeps_face_eq: "parallel s \<Longrightarrow> face_data s' = face_data s \<Longrightarrow> keeps s s'"
  by (simp add: keeps_def parallel_def face_pairs_def)

lemma snd_case_sum_pair: "snd (case r of Inl e \<Rightarrow> (f e, s) | Inr b \<Rightarrow> (g b, s)) = s"
  by (cases r) simp_all

lemma remove_face_face_in:
  "index_of (usernames (face_data s)) username < length (encodings (face_data s)) \<Longrightarrow>
   face_data (snd (remove_face username s)) =
     (face_data s)\<lparr>usernames := pop (index_of (usernames (face_data s)) username) (usernames (face_data s)),
                    encodings := pop (index_of (usernames (face_data s)) username) (encodings (face_data s))\<rparr>"
  by (simp add: remove_face_def Let_def case_prod_beta snd_case_sum_pair save_face_data_face)

lemma remove_face_face_out:
  "\<not> index_of (usernames (face_data s)) username < length (encodings (face_data s)) \<Longrightarrow>
   face_data (snd (remove_face username s)) =
     (face_data s)\<lparr>usernames := pop (index_of (usernames (face_data s)) username) (usernames (face_data s))\<rparr>"
  by (simp add: remove_face_def Let_def)

lemma remove_face_keeps: "parallel s \<Longrightarrow> keeps s (snd (remove_face username s))"
proof -
  assume p: "parallel s"
  let ?us = "usernames (face_data s)" and ?es = "encodings (face_data s)"
  let ?i = "index_of ?us username"
  let ?s' = "snd (remove_face username s)"
  from p have len: "length ?us = length ?es" by (simp add: parallel_def)
  show ?thesis
  proof (cases "?i < length ?es")
    case True
    then have fd: "face_data ?s' = (face_data s)\<lparr>usernames := pop ?i ?us, encodings := pop ?i ?es\<rparr>"
      by (rule remove_face_face_in)
    have "face_pairs ?s' = pop ?i (face_pairs s)"
      unfolding face_pairs_def fd using zip_pop[OF len] by simp
    moreover have "length (encodings (face_data ?s')) = length (usernames (face_data ?s'))"
      unfolding fd using length_pop[OF len] by simp
    ultimately show ?thesis
      unfolding keeps_def parallel_def using subseq_pop[of ?i "face_pairs s"] by simp
  next
    case False
    then have fd: "face_data ?s' = (face_data s)\<lparr>usernames := pop ?i ?us\<rparr>"
      by (rule remove_face_face_out)
    from False len have "pop ?i ?us = ?us" by (simp add: pop_beyond)
    with fd have "face_data ?s' = face_data s" by simp
    with p show ?thesis by (rule keeps_face_eq)
  qed
qed


lemma snd_case_result:
  "snd (case p of (Inl e, s2) \<Rightarrow> (f e, s2) | (Inr u, s2) \<Rightarrow> (g u, s2)) = snd p"
  by (simp split: prod.splits sum.splits)

lemma keeps_users_update: "parallel s \<Longrightarrow> keeps s (s\<lparr>data := d\<rparr>)"
  by (rule keeps_face_eq) simp_all

lemma cleanup_partial_keeps: "parallel s \<Longrightarrow> keeps s (snd (cleanup_partial username has_face s))"
proof -
  assume p: "parallel s"
  show ?thesis
  proof (cases "usernames_of (users (data s))")
    case (Inl e)
    with p show ?thesis by (simp add: cleanup_partial_def keeps_refl)
  next
    case names: (Inr names)
    let ?sel = "if JStr username \<in> set names then users_without (users (data s)) username
                else Inr (users (data s))"
    show ?thesis
    proof (cases ?sel)
      case (Inl e)
      with names p show ?thesis by (simp add: cleanup_partial_def keeps_refl)
    next
      case (Inr us)
      let ?s1 = "s\<lparr>data := (data s)\<lparr>users := us\<rparr>\<rparr>"
      have k1: "keeps s ?s1" using p by (rule keeps_users_update)
      then have p1: "parallel ?s1" by (simp add: keeps_def)
      have res: "snd (cleanup_partial username has_face s) =
                 (if has_face \<and> username \<in> set (usernames (face_data ?s1))
                  then snd (remove_face username ?s1) else ?s1)"
        using names Inr by (simp add: cleanup_partial_def Let_def snd_case_result)
      show ?thesis
      proof (cases "has_face \<and> username \<in> set (usernames (face_data ?s1))")
        case True
        have "keeps ?s1 (snd (remove_face username ?s1))" using p1 by (rule remove_face_keeps)
        with k1 have "keeps s (snd (remove_face username ?s1))" by (rule keeps_trans)
        with True res show ?thesis by simp
      next
        case False
        with res k1 show ?thesis by auto
      qed
    qed
  qed
qed

lemma save_data_keeps: "parallel s \<Longrightarrow> keeps s (snd (save_data d s))"
  by (rule keeps_face_eq) (simp_all add: save_data_face)

lemma save_face_data_keeps: "parallel s \<Longrightarrow> keeps s (snd (save_face_data s))"
  by (rule keeps_face_eq) (simp_all add: save_face_data_face)

lemma commit_user_keeps: "parallel s \<Longrightarrow> keeps s (snd (commit_user username has_face s))"
proof -
  assume p: "parallel s"
  obtain r s1 where sv: "save_data None s = (r, s1)" by (cases "save_data None s")
  then have "s1 = snd (save_data None s)" by simp
  with p have k1: "keeps s s1" by (simp add: save_data_keeps)
  then have p1: "parallel s1" by (simp add: keeps_def)
  have kc: "keeps s (snd (cleanup_partial username has_face s1))"
    using k1 cleanup_partial_keeps[OF p1] by (rule keeps_trans)
  show ?thesis
  proof (cases r)
    case (Inl e)
    with sv kc show ?thesis by (simp add: commit_user_def)
  next
    case (Inr b)
    show ?thesis
    proof (cases b)
      case True
      with Inr sv k1 show ?thesis by (simp add: commit_user_def)
    next
      case False
      show ?thesis
      proof (cases "has_face \<and> username \<in> set (usernames (face_data s1))")
        case no: False
        with False Inr sv k1 show ?thesis by (auto simp add: commit_user_def)
      next
        case yes: True
        obtain r2 s2 where rf: "remove_face username s1 = (r2, s2)"
          by (cases "remove_face username s1")
        then have "s2 = snd (remove_face username s1)" by simp
        with p1 have "keeps s1 s2" by (simp add: remove_face_keeps)
        with k1 have k2: "keeps s s2" by (rule keeps_trans)
        then have p2: "parallel s2" by (simp add: keeps_def)
        have kc2: "keeps s (snd (cleanup_partial username has_face s2))"
          using k2 cleanup_partial_keeps[OF p2] by (rule keeps_trans)
        from yes False Inr sv rf k2 kc2 show ?thesis
          by (cases r2) (simp_all add: commit_user_def)
      qed
    qed
  qed
qed


lemma enrol_parallel: "parallel s \<Longrightarrow> parallel (enrol username e s)"
  by (simp add: parallel_def enrol_def)

lemma enrol_pairs: "parallel s \<Longrightarrow> face_pairs (enrol username e s) = face_pairs s @ [(username, e)]"
  by (simp add: parallel_def enrol_def face_pairs_def)

lemma store_face_keeps:
  assumes p: "parallel s"
  shows "keeps (enrol username e s)
           (case store_face username e s of Inl res \<Rightarrow> snd res | Inr s2 \<Rightarrow> s2)"
proof -
  let ?s1 = "enrol username e s"
  have p1: "parallel ?s1" using p by (rule enrol_parallel)
  obtain r s2 where sv: "save_face_data ?s1 = (r, s2)" by (cases "save_face_data ?s1")
  then have "s2 = snd (save_face_data ?s1)" by simp
  with p1 have k2: "keeps ?s1 s2" by (simp add: save_face_data_keeps)
  then have p2: "parallel s2" by (simp add: keeps_def)
  have kc: "keeps ?s1 (snd (cleanup_partial username True s2))"
    using k2 cleanup_partial_keeps[OF p2] by (rule keeps_trans)
  have ku: "\<And>us. keeps ?s1 (s2\<lparr>data := (data s2)\<lparr>users := us\<rparr>\<rparr>)"
    using k2 keeps_users_update[OF p2] by (rule keeps_trans)
  show ?thesis
  proof (cases "r = Inr True")
    case True
    with sv k2 show ?thesis
      by (simp add: store_face_def enrol_def[symmetric] Let_def)
  next
    case False
    then have "store_face username e s =
        (case users_without (users (data s2)) username of
           Inl e \<Rightarrow> Inl (cleanup_partial username True s2)
         | Inr us \<Rightarrow> Inl (Inr False, s2\<lparr>data := (data s2)\<lparr>users := us\<rparr>\<rparr>))"
      using sv by (simp add: store_face_def enrol_def[symmetric] Let_def split: sum.splits bool.splits)
    with kc ku show ?thesis
      by (cases "users_without (users (data s2)) username") simp_all
  qed
qed

text \<open>
  Claim C10. If the two sequences of the face store have equal length before
  \<open>register_user\<close>, they have equal length after it, whatever the call returns or raises
  and whichever saves fail; and the pairs after it are pairs of the store before it, possibly
  with the new enrolment at the end, in the same order: an entry of \<open>usernames\<close> never
  ends up beside another user's encoding.
\<close>

theorem register_user_keeps_lists_parallel:
  assumes p: "parallel s"
  shows "parallel (snd (register_user env username password face_encoding s)) \<and>
         subseq (face_pairs (snd (register_user env username password face_encoding s)))
           (face_pairs s @ (case face_encoding of None \<Rightarrow> [] | Some e \<Rightarrow> [(username, e)]))"
proof -
  let ?s' = "snd (register_user env username password face_encoding s)"
  let ?new = "case face_encoding of None \<Rightarrow> [] | Some e \<Rightarrow> [(username, e)]"
  have refl: "keeps s s" using p by (rule keeps_refl)
  let ?s1 = "s\<lparr>data := (data s)\<lparr>users := users (data s) @
                 [user_data env username password face_encoding]\<rparr>\<rparr>"
  have k1: "keeps s ?s1" using p by (rule keeps_users_update)
  then have p1: "parallel ?s1" by (simp add: keeps_def)
  have "(parallel ?s' \<and> subseq (face_pairs ?s') (face_pairs s)) \<or>
        (\<exists>e. face_encoding = Some e \<and> keeps (enrol username e ?s1) ?s')"
  proof (cases "username = [] \<or> user_exists s username \<noteq> Inr False \<or>
                (case face_encoding of None \<Rightarrow> False | Some e \<Rightarrow> length e \<noteq> 128) \<or>
                auth_methods_of password face_encoding = []")
    case True
    then have "?s' = s"
      by (auto simp add: register_user_def split: sum.splits bool.splits)
    with refl show ?thesis by (simp add: keeps_def)
  next
    case False
    show ?thesis
    proof (cases face_encoding)
      case None
      with False have "?s' = snd (commit_user username False ?s1)"
        by (simp add: register_user_def Let_def)
      moreover have "keeps s (snd (commit_user username False ?s1))"
        using k1 commit_user_keeps[OF p1] by (rule keeps_trans)
      ultimately show ?thesis by (simp add: keeps_def)
    next
      case (Some e)
      have ks: "keeps (enrol username e ?s1)
           (case store_face username e ?s1 of Inl res \<Rightarrow> snd res | Inr s2 \<Rightarrow> s2)"
        using p1 by (rule store_face_keeps)
      have "keeps (enrol username e ?s1) ?s'"
      proof (cases "store_face username e ?s1")
        case (Inl res)
        with Some False have "?s' = snd res"
          by (simp add: register_user_def Let_def)
        with ks Inl show ?thesis by simp
      next
        case (Inr s2)
        with Some False have eq: "?s' = snd (commit_user username True s2)"
          by (simp add: register_user_def Let_def)
        from ks Inr have k2: "keeps (enrol username e ?s1) s2" by simp
        then have "parallel s2" by (simp add: keeps_def)
        then have "keeps s2 (snd (commit_user username True s2))" by (rule commit_user_keeps)
        with k2 eq show ?thesis by (simp add: keeps_trans)
      qed
      with Some show ?thesis by simp
    qed
  qed
  then show ?thesis
  proof
    assume a: "parallel ?s' \<and> subseq (face_pairs ?s') (face_pairs s)"
    then have "subseq (face_pairs ?s') (face_pairs s)" by simp
    then have "subseq (face_pairs ?s') (face_pairs s @ ?new)"
      by (rule list_emb_prefix)
    with a show ?thesis by simp
  next
    assume "\<exists>e. face_encoding = Some e \<and> keeps (enrol username e ?s1) ?s'"
    then obtain e where fe: "face_encoding = Some e" and k: "keeps (enrol username e ?s1) ?s'"
      by blast
    have "face_pairs (enrol username e ?s1) = face_pairs ?s1 @ [(username, e)]"
      using p1 by (rule enrol_pairs)
    moreover have "face_pairs ?s1 = face_pairs s" by (simp add: face_pairs_def)
    ultimately show ?thesis using k fe by (simp add: keeps_def)
  qed
qed



theorem register_user_keeps_lists_parallel_witness:
  "parallel (alice_bob_state\<lparr>faults := [Fault None False, Fault (Some Dump) False]\<rparr>) \<and>
   parallel (snd (register_user example_env ''carol'' None (Some (emb 1))
               (alice_bob_state\<lparr>faults := [Fault None False, Fault (Some Dump) False]\<rparr>))) \<and>
   subseq (face_pairs (snd (register_user example_env ''carol'' None (Some (emb 1))
               (alice_bob_state\<lparr>faults := [Fault None False, Fault (Some Dump) False]\<rparr>))))
     [(''alice'', emb 0), (''bob'', emb (38 / 100)), (''carol'', emb 1)]"
  using register_user_keeps_lists_parallel
    [of "alice_bob_state\<lparr>faults := [Fault None False, Fault (Some Dump) False]\<rparr>"
        example_env "''carol''" None "Some (emb 1)"]
  by (simp add: parallel_def face_pairs_def alice_bob_faces)

section \<open>Failed saves\<close>

text \<open>
  Claim C6. The claim says that a save never lets an exception out, leaves the file on disk
  as it was when it fails, and always removes the temporary file. The code does otherwise at
  three failure points: \<open>save_face_data\<close> with a failing \<open>os.makedirs\<close> ends in
  \<open>UnboundLocalError\<close>; \<open>save_data\<close> with a failing \<open>os.rename\<close> returns
  \<open>False\<close> after the old file has been removed, so that no file is left; and
  \<open>save_data\<close> whose clean-up \<open>os.remove\<close> fails ends in \<open>OSError\<close> with the
  temporary file still there.
\<close>

theorem save_raises_and_loses_file:
  "fst (save_face_data (initial_state\<lparr>faults := [Fault (Some Makedirs) False]\<rparr>)) =
     Inl UnboundLocalError \<and>
   save_data None (initial_state\<lparr>data_file := Stored (JObj []), faults := [Fault (Some Rename) False]\<rparr>) =
     (Inr False, initial_state) \<and>
   data_file initial_state = Absent \<and>
   fst (save_data None (initial_state\<lparr>faults := [Fault (Some Dump) True]\<rparr>)) = Inl OSError \<and>
   data_tmp (snd (save_data None (initial_state\<lparr>faults := [Fault (Some Dump) True]\<rparr>))) = Truncated"
  by (simp add: eval_defs)

section \<open>Registration that fails at the account save\<close>

text \<open>
  Claim C1. The claim says that after a registration in which a save fails the user does not
  exist and has no authentication methods. When \<open>save_data\<close> returns \<open>False\<close> the code
  returns \<open>False\<close> and leaves the new record in \<open>self.data["users"]\<close>: the user exists
  and has the password method.
\<close>

theorem register_user_save_failure_keeps_user:
  "fst (register_user example_env ''alice'' (Some ''longpassword1'') None
          (initial_state\<lparr>faults := [Fault (Some Dump) False]\<rparr>)) = Inr False \<and>
   user_exists (snd (register_user example_env ''alice'' (Some ''longpassword1'') None
          (initial_state\<lparr>faults := [Fault (Some Dump) False]\<rparr>))) ''alice'' = Inr True \<and>
   get_user_auth_methods (snd (register_user example_env ''alice'' (Some ''longpassword1'') None
          (initial_state\<lparr>faults := [Fault (Some Dump) False]\<rparr>))) ''alice'' = Inr [''password'']"
  by (simp add: eval_defs)

section \<open>Changing a password\<close>

text \<open>
  Claim C5. The claim says that the password change succeeds and stores the digest of the
  new password. \<open>change_password\<close> never returns \<open>True\<close> and never changes the state:
  it returns \<open>False\<close> or ends in an exception.
\<close>

theorem change_password_never_succeeds:
  "fst (change_password env username old_password new_password s) \<noteq> Inr True \<and>
   snd (change_password env username old_password new_password s) = s"
  by (simp add: change_password_def split: sum.splits bool.splits)

section \<open>Which enrolled entry a probe resolves to\<close>

text \<open>
  Claim C3. The claim says that the probe resolves to the enrolled entry at the least
  distance. With alice enrolled at distance 0.38 from bob, \<open>Database.authenticate_face\<close> on
  bob's own embedding returns alice, the first entry within the tolerance, while the entry at
  the least distance is bob's (index 1), which is the one \<open>FaceAuthenticator.authenticate\<close>
  returns.
\<close>

theorem authenticate_face_first_match_not_nearest:
  "authenticate_face example_env alice_bob_state (emb (38 / 100)) = Inr (Some ''alice'') \<and>
   argmin (map (\<lambda>e. face_distance example_env e (emb (38 / 100)))
             (encodings (face_data alice_bob_state))) = 1 \<and>
   usernames (face_data alice_bob_state) ! 1 = ''bob'' \<and>
   face_authenticate example_env alice_bob_state (encodings (face_data alice_bob_state))
     (usernames (face_data alice_bob_state)) (emb (38 / 100)) (6 / 10) = Some ''bob''"
  by (simp add: authenticate_face_def face_authenticate_def compare_faces_def argmin_def
      alice_bob_faces alice_bob_users emb_distance user_exists_def user_data_def)


section \<open>Orphaned templates\<close>

lemma orphan_state_fields:
  "face_data orphan_state = \<lparr>encodings = [emb 1], usernames = [''bob'']\<rparr>"
  "users (data orphan_state) = []"
  by (simp_all add: orphan_state_def eval_defs emb_def)

text \<open>
  Claim C7. \<open>Database.authenticate_face\<close> returns a username only when
  \<open>user_exists\<close> holds for it, and the username is the one stored beside the matched
  template; when the matched template's username has no record in the user set, no username
  is returned.
\<close>

theorem authenticate_face_requires_account:
  "(authenticate_face env s probe = Inr (Some username) \<longrightarrow>
      user_exists s username = Inr True \<and>
      True \<in> set (compare_faces env (encodings (face_data s)) probe (4 / 10)) \<and>
      username = usernames (face_data s) !
                   index_of (compare_faces env (encodings (face_data s)) probe (4 / 10)) True) \<and>
   (True \<in> set (compare_faces env (encodings (face_data s)) probe (4 / 10)) \<and>
    index_of (compare_faces env (encodings (face_data s)) probe (4 / 10)) True
      < length (usernames (face_data s)) \<and>
    user_exists s (usernames (face_data s) !
       index_of (compare_faces env (encodings (face_data s)) probe (4 / 10)) True) = Inr False \<longrightarrow>
      authenticate_face env s probe = Inr None)"
  by (auto simp add: authenticate_face_def Let_def split: if_splits sum.splits bool.splits)

theorem authenticate_face_requires_account_witness:
  "True \<in> set (compare_faces example_env (encodings (face_data orphan_state)) (emb 1) (4 / 10)) \<and>
   index_of (compare_faces example_env (encodings (face_data orphan_state)) (emb 1) (4 / 10)) True
     < length (usernames (face_data orphan_state)) \<and>
   usernames (face_data orphan_state) !
     index_of (compare_faces example_env (encodings (face_data orphan_state)) (emb 1) (4 / 10)) True
     = ''bob'' \<and>
   user_exists orphan_state ''bob'' = Inr False \<and>
   authenticate_face example_env orphan_state (emb 1) = Inr None"
  using authenticate_face_requires_account [of example_env orphan_state "emb 1" "''bob''"]
  by (simp add: orphan_state_fields compare_faces_def emb_distance user_exists_def)

section \<open>Rejected registrations\<close>

text \<open>
  Claim C8. A registration with an empty username, an existing username, no authentication
  method or a face encoding whose length is not 128 does not return \<open>True\<close> and leaves
  the whole state as it was: both stores, both files and the schedule of saves, so that no
  save was attempted.
\<close>

theorem register_user_rejection_has_no_effect:
  assumes "username = [] \<or> user_exists s username = Inr True \<or>
           (\<not> password_given password \<and> face_encoding = None) \<or>
           (\<exists>e. face_encoding = Some e \<and> length e \<noteq> 128)"
  shows "snd (register_user env username password face_encoding s) = s \<and>
         fst (register_user env username password face_encoding s) \<noteq> Inr True \<and>
         (fst (register_user env username password face_encoding s) = Inr False \<or>
          fst (register_user env username password face_encoding s) = user_exists s username)"
  using assms
  by (auto simp add: register_user_def auth_methods_of_def split: sum.splits bool.splits)

theorem register_user_rejection_has_no_effect_witness:
  "register_user example_env ''alice'' (Some ''longpassword1'') None alice_bob_state =
     (Inr False, alice_bob_state) \<and>
   register_user example_env ''carol'' None (Some (replicate 127 0)) alice_bob_state =
     (Inr False, alice_bob_state) \<and>
   register_user example_env '''' (Some ''longpassword1'') None alice_bob_state =
     (Inr False, alice_bob_state) \<and>
   register_user example_env ''carol'' (Some '''') None alice_bob_state =
     (Inr False, alice_bob_state) \<and>
   user_exists alice_bob_state ''alice'' = Inr True \<and>
   user_exists alice_bob_state ''carol'' = Inr False"
  using register_user_rejection_has_no_effect
          [of "''alice''" alice_bob_state "Some ''longpassword1''" None example_env]
        register_user_rejection_has_no_effect
          [of "''carol''" alice_bob_state None "Some (replicate 127 0)" example_env]
        register_user_rejection_has_no_effect
          [of "''''" alice_bob_state "Some ''longpassword1''" None example_env]
        register_user_rejection_has_no_effect
          [of "''carol''" alice_bob_state "Some ''''" None example_env]
  by (auto simp add: user_exists_def alice_bob_users user_data_def password_given_def prod_eq_iff)

section \<open>Registration with a password, then verification\<close>

lemma save_data_data: "data (snd (save_data d s)) = data s"
  by (simp add: save_data_def Let_def case_prod_beta)

lemma cleanup_partial_not_True: "fst (cleanup_partial username has_face s) \<noteq> Inr True"
  by (simp add: cleanup_partial_def Let_def split: sum.splits prod.splits)

lemma commit_user_True:
  assumes "commit_user username has_face s = (Inr True, s')"
  shows "data s' = data s"
proof -
  obtain r s1 where sv: "save_data None s = (r, s1)" by (cases "save_data None s")
  then have d1: "data s1 = data s" using save_data_data[of None s] by simp
  show ?thesis
  proof (cases r)
    case (Inl e)
    with sv assms cleanup_partial_not_True[of username has_face s1] show ?thesis
      by (simp add: commit_user_def)
  next
    case (Inr b)
    show ?thesis
    proof (cases b)
      case True
      with Inr sv assms d1 show ?thesis by (simp add: commit_user_def)
    next
      case False
      obtain r2 s2 where rf: "remove_face username s1 = (r2, s2)"
        by (cases "remove_face username s1")
      from False Inr sv assms rf cleanup_partial_not_True[of username has_face s2]
      show ?thesis
        by (cases r2) (auto simp add: commit_user_def split: if_splits)
    qed
  qed
qed

lemma find_user_append:
  "user_exists_in us name = Inr False \<Longrightarrow> find_user (us @ [u]) name = find_user [u] name"
  by (induction us) (auto split: sum.splits if_splits)

lemma register_password_users:
  assumes "register_user env username (Some password) None s = (Inr True, s')"
  shows "users (data s') = users (data s) @ [user_data env username (Some password) None] \<and>
         user_exists s username = Inr False \<and> password \<noteq> []"
proof -
  let ?s1 = "s\<lparr>data := (data s)\<lparr>users := users (data s) @
                 [user_data env username (Some password) None]\<rparr>\<rparr>"
  from assms have ex: "user_exists s username = Inr False"
    by (auto simp add: register_user_def split: if_splits sum.splits bool.splits)
  from assms have pw: "password \<noteq> []"
    by (auto simp add: register_user_def auth_methods_of_def password_given_def
        split: if_splits sum.splits bool.splits)
  from assms ex have "commit_user username False ?s1 = (Inr True, s')"
    by (auto simp add: register_user_def Let_def split: if_splits)
  then have "data s' = data ?s1" by (rule commit_user_True)
  with ex pw show ?thesis by simp
qed

lemma verify_after_password_registration:
  assumes reg: "register_user env username (Some password) None s = (Inr True, s')"
      and dg: "sha256_hex env (password @ ''finnova_secret_pepper'' @ salt env) \<noteq> []"
  shows "get_user_auth_methods s' username = Inr [''password'']"
    and "authenticate_password env s' username p =
           Inr (hash_password env p = hash_password env password)"
proof -
  let ?ud = "user_data env username (Some password) None"
  from reg have us: "users (data s') = users (data s) @ [?ud]"
    and ex: "user_exists_in (users (data s)) username = Inr False" and pw: "password \<noteq> []"
    using register_password_users[OF reg] by (simp_all add: user_exists_def)
  have fu: "find_user (users (data s')) username = Inr (Some ?ud)"
    unfolding us using find_user_append[OF ex] by (simp add: user_data_def)
  from pw dg show "get_user_auth_methods s' username = Inr [''password'']"
    by (simp add: get_user_auth_methods_def fu user_data_def hash_password_def json_of_hash_def)
  from pw dg show "authenticate_password env s' username p =
           Inr (hash_password env p = hash_password env password)"
    by (auto simp add: authenticate_password_def fu user_data_def hash_password_def json_of_hash_def)
qed
text \<open>Without an I/O failure the registration of a fresh user does succeed.\<close>

lemma register_user_succeeds:
  assumes "username \<noteq> []" "password \<noteq> []" "user_exists s username = Inr False" "faults s = []"
  shows "fst (register_user env username (Some password) None s) = Inr True"
  using assms
  by (simp add: register_user_def auth_methods_of_def password_given_def commit_user_def
      save_data_def next_fault_def Let_def)

lemma stored_hash_after_password_registration:
  assumes reg: "register_user env username (Some password) None s = (Inr True, s')"
  shows "\<exists>u. find_user (users (data s')) username = Inr (Some u) \<and>
             getitem u ''password_hash'' =
               Inr (JStr (sha256_hex env (password @ ''finnova_secret_pepper'' @
                      (case password_salt env of None \<Rightarrow> ''default_salt_value'' | Some v \<Rightarrow> v))))"
proof -
  let ?ud = "user_data env username (Some password) None"
  from reg have us: "users (data s') = users (data s) @ [?ud]"
    and ex: "user_exists_in (users (data s)) username = Inr False" and pw: "password \<noteq> []"
    using register_password_users[OF reg] by (simp_all add: user_exists_def)
  have fu: "find_user (users (data s')) username = Inr (Some ?ud)"
    unfolding us using find_user_append[OF ex] by (simp add: user_data_def)
  from pw have "getitem ?ud ''password_hash'' =
      Inr (JStr (sha256_hex env (password @ ''finnova_secret_pepper'' @
                      (case password_salt env of None \<Rightarrow> ''default_salt_value'' | Some v \<Rightarrow> v))))"
    by (simp add: user_data_def hash_password_def json_of_hash_def salt_def)
  with fu show ?thesis by blast
qed

lemma digest_collision:
  fixes f :: "string \<Rightarrow> string" and rest :: string
  assumes "\<forall>x. length (f x) = n"
  shows "\<exists>p p'. p \<noteq> [] \<and> p' \<noteq> [] \<and> p \<noteq> p' \<and> f (p @ rest) = f (p' @ rest)"
proof -
  let ?A = "{p::string. p \<noteq> []}"
  let ?g = "\<lambda>p. f (p @ rest)"
  have "finite {xs::string. set xs \<subseteq> UNIV \<and> length xs = n}"
    by (rule finite_lists_length_eq) simp
  moreover have "?g ` ?A \<subseteq> {xs::string. set xs \<subseteq> UNIV \<and> length xs = n}"
    using assms by auto
  ultimately have fin: "finite (?g ` ?A)" by (rule rev_finite_subset)
  have "?A = UNIV - {[]}" by auto
  moreover have "infinite (UNIV :: string set)" by (rule infinite_UNIV_listI)
  ultimately have inf: "infinite ?A" by simp
  have "\<not> inj_on ?g ?A"
  proof
    assume "inj_on ?g ?A"
    with fin have "finite ?A" by (rule finite_imageD)
    with inf show False by simp
  qed
  then show ?thesis by (auto simp add: inj_on_def)
qed

text \<open>
  Claim C9, as stated, fails: whatever the digest function, as long as its digests have 64
  characters, some password other than the registered one has the same digest and verifies.
\<close>

theorem some_other_password_verifies:
  "\<not> (\<exists>env. (\<forall>x. length (sha256_hex env x) = 64) \<and>
          (\<forall>password p. password \<noteq> [] \<and> p \<noteq> password \<longrightarrow>
              authenticate_password env
                (snd (register_user env ''alice'' (Some password) None initial_state))
                ''alice'' p = Inr False))"
proof
  assume "\<exists>env. (\<forall>x. length (sha256_hex env x) = 64) \<and>
          (\<forall>password p. password \<noteq> [] \<and> p \<noteq> password \<longrightarrow>
              authenticate_password env
                (snd (register_user env ''alice'' (Some password) None initial_state))
                ''alice'' p = Inr False)"
  then obtain env where len: "\<forall>x. length (sha256_hex env x) = 64"
    and claim: "\<And>password p. password \<noteq> [] \<Longrightarrow> p \<noteq> password \<Longrightarrow>
              authenticate_password env
                (snd (register_user env ''alice'' (Some password) None initial_state))
                ''alice'' p = Inr False"
    by blast
  from digest_collision[OF len, of "''finnova_secret_pepper'' @ salt env"]
  obtain password p where pw: "password \<noteq> []" and p: "p \<noteq> []" and ne: "password \<noteq> p"
    and eq: "sha256_hex env (password @ ''finnova_secret_pepper'' @ salt env) =
             sha256_hex env (p @ ''finnova_secret_pepper'' @ salt env)"
    by blast
  let ?s' = "snd (register_user env ''alice'' (Some password) None initial_state)"
  have ok: "fst (register_user env ''alice'' (Some password) None initial_state) = Inr True"
    using pw by (intro register_user_succeeds)
      (simp_all add: user_exists_def initial_state_def default_document_def)
  then have reg: "register_user env ''alice'' (Some password) None initial_state = (Inr True, ?s')"
    by (simp add: prod_eq_iff)
  from len have "length (sha256_hex env (password @ ''finnova_secret_pepper'' @ salt env)) = 64"
    by blast
  then have dg: "sha256_hex env (password @ ''finnova_secret_pepper'' @ salt env) \<noteq> []"
    by auto
  from verify_after_password_registration(2)[OF reg dg, of p] p pw eq
  have "authenticate_password env ?s' ''alice'' p = Inr True"
    by (simp add: hash_password_def)
  moreover from claim[OF pw, of p] ne
  have "authenticate_password env ?s' ''alice'' p = Inr False" by simp
  ultimately show False by simp
qed

text \<open>
  Claim C9, amended. After a successful registration with a password only, the user's
  methods are exactly the password method, the stored \<open>password_hash\<close> is the hex digest
  of password, pepper and salt, the same password verifies, and a password verifies exactly
  when it is not empty and its digest of password, pepper and salt equals the stored one.
\<close>

theorem password_registration_then_verify:
  assumes "register_user env username (Some password) None s = (Inr True, s')"
      and "sha256_hex env (password @ ''finnova_secret_pepper'' @
             (case password_salt env of None \<Rightarrow> ''default_salt_value'' | Some v \<Rightarrow> v)) \<noteq> []"
  shows "get_user_auth_methods s' username = Inr [''password''] \<and>
         (\<exists>u. find_user (users (data s')) username = Inr (Some u) \<and>
              getitem u ''password_hash'' =
                Inr (JStr (sha256_hex env (password @ ''finnova_secret_pepper'' @
                       (case password_salt env of None \<Rightarrow> ''default_salt_value'' | Some v \<Rightarrow> v))))) \<and>
         authenticate_password env s' username password = Inr True \<and>
         (\<forall>p. authenticate_password env s' username p =
                Inr (p \<noteq> [] \<and>
                     sha256_hex env (p @ ''finnova_secret_pepper'' @
                       (case password_salt env of None \<Rightarrow> ''default_salt_value'' | Some v \<Rightarrow> v)) =
                     sha256_hex env (password @ ''finnova_secret_pepper'' @
                       (case password_salt env of None \<Rightarrow> ''default_salt_value'' | Some v \<Rightarrow> v))))"
proof -
  from assms(2) have dg: "sha256_hex env (password @ ''finnova_secret_pepper'' @ salt env) \<noteq> []"
    by (simp add: salt_def)
  note v = verify_after_password_registration[OF assms(1) dg]
  from assms(1) have pw: "password \<noteq> []" using register_password_users by blast
  have h: "(hash_password env p = hash_password env password) =
       (p \<noteq> [] \<and>
        sha256_hex env (p @ ''finnova_secret_pepper'' @
          (case password_salt env of None \<Rightarrow> ''default_salt_value'' | Some v \<Rightarrow> v)) =
        sha256_hex env (password @ ''finnova_secret_pepper'' @
          (case password_salt env of None \<Rightarrow> ''default_salt_value'' | Some v \<Rightarrow> v)))" for p
    using pw by (simp add: hash_password_def salt_def)
  from v(2) h have all: "\<forall>p. authenticate_password env s' username p =
                Inr (p \<noteq> [] \<and>
                     sha256_hex env (p @ ''finnova_secret_pepper'' @
                       (case password_salt env of None \<Rightarrow> ''default_salt_value'' | Some v \<Rightarrow> v)) =
                     sha256_hex env (password @ ''finnova_secret_pepper'' @
                       (case password_salt env of None \<Rightarrow> ''default_salt_value'' | Some v \<Rightarrow> v)))"
    by simp
  from all pw have same: "authenticate_password env s' username password = Inr True" by simp
  from v(1) stored_hash_after_password_registration[OF assms(1)] same all
  show ?thesis by (intro conjI)
qed

theorem password_registration_then_verify_witness:
  "register_user example_env ''alice'' (Some ''longpassword1'') None initial_state =
     (Inr True, snd (register_user example_env ''alice'' (Some ''longpassword1'') None initial_state)) \<and>
   sha256_hex example_env (''longpassword1'' @ ''finnova_secret_pepper'' @
      (case password_salt example_env of None \<Rightarrow> ''default_salt_value'' | Some v \<Rightarrow> v)) \<noteq> [] \<and>
   get_user_auth_methods
     (snd (register_user example_env ''alice'' (Some ''longpassword1'') None initial_state))
     ''alice'' = Inr [''password''] \<and>
   authenticate_password example_env
     (snd (register_user example_env ''alice'' (Some ''longpassword1'') None initial_state))
     ''alice'' ''longpassword1'' = Inr True \<and>
   authenticate_password example_env
     (snd (register_user example_env ''alice'' (Some ''longpassword1'') None initial_state))
     ''alice'' ''wrong'' = Inr False"
proof -
  let ?s' = "snd (register_user example_env ''alice'' (Some ''longpassword1'') None initial_state)"
  have reg: "register_user example_env ''alice'' (Some ''longpassword1'') None initial_state =
     (Inr True, ?s')"
    by (simp add: eval_defs)
  have dg: "sha256_hex example_env (''longpassword1'' @ ''finnova_secret_pepper'' @
      (case password_salt example_env of None \<Rightarrow> ''default_salt_value'' | Some v \<Rightarrow> v)) \<noteq> []"
    by (simp add: example_env_def)
  note v = password_registration_then_verify[OF reg dg]
  from v have m: "get_user_auth_methods ?s' ''alice'' = Inr [''password'']"
    and ok: "authenticate_password example_env ?s' ''alice'' ''longpassword1'' = Inr True"
    by blast+
  from v have "authenticate_password example_env ?s' ''alice'' ''wrong'' =
      Inr (''wrong'' \<noteq> [] \<and>
           sha256_hex example_env (''wrong'' @ ''finnova_secret_pepper'' @
             (case password_salt example_env of None \<Rightarrow> ''default_salt_value'' | Some v \<Rightarrow> v)) =
           sha256_hex example_env (''longpassword1'' @ ''finnova_secret_pepper'' @
             (case password_salt example_env of None \<Rightarrow> ''default_salt_value'' | Some v \<Rightarrow> v)))"
    by blast
  then have no: "authenticate_password example_env ?s' ''alice'' ''wrong'' = Inr False"
    by (simp add: example_env_def)
  from reg dg m ok no show ?thesis by (intro conjI)
qed

text \<open>The password authenticator hashes before it registers and before it verifies, so
  its two operations agree as well.\<close>

lemma traditional_register_then_authenticate:
  assumes reg: "traditional_register env username password s = (Inr True, s')"
      and dg: "sha256_hex env (sha256_hex env (''finnova_salt_'' @ password @ ''_secret_pepper'') @
                 ''finnova_secret_pepper'' @ salt env) \<noteq> []"
  shows "traditional_authenticate env s' username password = Inr True"
proof -
  let ?h = "sha256_hex env (''finnova_salt_'' @ password @ ''_secret_pepper'')"
  from reg have ne: "username \<noteq> []" "password \<noteq> []"
    by (auto simp add: traditional_register_def split: if_splits)
  with reg have r: "register_user env username (Some ?h) None s = (Inr True, s')"
    by (auto simp add: traditional_register_def traditional_hash_def
        split: if_splits sum.splits bool.splits)
  from verify_after_password_registration(2)[OF r dg, of ?h]
  have "authenticate_password env s' username ?h = Inr True" by simp
  with ne show ?thesis
    by (simp add: traditional_authenticate_def traditional_hash_def)
qed


section \<open>Distance against tolerance\<close>







section \<open>Saving a document and loading it back\<close>

text \<open>
  Claim C2, as stated, fails: a document whose categories hold the same string twice comes
  back with that string once.
\<close>

theorem roundtrip_drops_duplicate_category:
  "fst (save_data (Some dup_document) initial_state) = Inr True \<and>
   categories (fst (load_data example_env False (snd (save_data (Some dup_document) initial_state))))
     = [JStr ''Food''] \<and>
   fst (load_data example_env False (snd (save_data (Some dup_document) initial_state)))
     \<noteq> dup_document"
proof -
  have sv: "save_data (Some dup_document) initial_state =
      (Inr True, initial_state\<lparr>data_file := Stored (document_json dup_document), notified := 1\<rparr>)"
    by (simp add: save_data_def next_fault_def initial_state_def)
  have ld: "categories (fst (load_data example_env False
      (initial_state\<lparr>data_file := Stored (document_json dup_document), notified := 1\<rparr>)))
     = [JStr ''Food'']"
    by (simp add: load_data_def document_json_def document_items_def repair_def list_field_def
        clean_categories_def py_str_def example_env_def dup_document_def default_document_def)
  have "categories dup_document \<noteq> [JStr ''Food'']"
    by (simp add: dup_document_def)
  with sv ld show ?thesis by auto
qed

lemma write_steps_success:
  "write_steps f v p t = (True, p', t') \<Longrightarrow> p' = Stored v"
  by (cases "(f, v, p, t)" rule: write_steps.cases) (auto split: if_splits)

lemma save_data_True_file:
  assumes "save_data (Some d) s = (Inr True, s')"
  shows "data_file s' = Stored (document_json d)"
proof -
  obtain ft s0 where nf: "next_fault s = (ft, s0)" by (cases "next_fault s")
  obtain ok p t where ws:
    "write_steps (fails_at ft) (document_json d) (data_file s0) (data_tmp s0) = (ok, p, t)"
    by (cases "write_steps (fails_at ft) (document_json d) (data_file s0) (data_tmp s0)")
  from assms nf ws have "ok" and "data_file s' = p"
    by (auto simp add: save_data_def Let_def split: if_splits)
  with ws write_steps_success[of "fails_at ft" "document_json d" "data_file s0" "data_tmp s0" p t]
  show ?thesis by simp
qed

lemma filter_other:
  "\<forall>k\<in>set required_keys. k \<notin> fst ` set kvs \<Longrightarrow>
   filter (\<lambda>kv. fst kv \<notin> set required_keys) kvs = kvs"
  by (induction kvs) auto

lemma repair_document_items:
  assumes "\<forall>k\<in>set required_keys. k \<notin> fst ` set (other d)"
  shows "repair env (document_items d) = d\<lparr>categories := clean_categories env (categories d)\<rparr>"
proof -
  have "filter (\<lambda>kv. fst kv \<notin> set required_keys) (document_items d) = other d"
    using filter_other[OF assms] by (simp add: document_items_def required_keys_def)
  then show ?thesis
    by (cases d) (simp add: repair_def list_field_def dict_field_def document_items_def)
qed

lemma clean_categories_strings:
  assumes ord: "\<forall>xs. distinct xs \<longrightarrow> distinct (set_order env xs) \<and> set (set_order env xs) = set xs"
      and d: "distinct cs" and str: "\<forall>c\<in>set cs. \<exists>x. c = JStr x \<and> x \<noteq> []"
  shows "set (clean_categories env cs) = set cs \<and> distinct (clean_categories env cs)"
proof -
  from str have f: "filter truthy cs = cs" by (induction cs) auto
  from str have m: "map JStr (map (py_str env) cs) = cs"
    by (induction cs) (auto simp add: py_str_def)
  have inj: "inj_on (py_str env) (set cs)"
  proof (rule inj_onI)
    fix a b
    assume a: "a \<in> set cs" and b: "b \<in> set cs" and eq: "py_str env a = py_str env b"
    from a str obtain x where "a = JStr x" by blast
    moreover from b str obtain y where "b = JStr y" by blast
    ultimately show "a = b" using eq by (simp add: py_str_def)
  qed
  with d have dm: "distinct (map (py_str env) cs)" by (simp add: distinct_map)
  then have r: "remdups (map (py_str env) cs) = map (py_str env) cs" by simp
  from ord dm have o: "distinct (set_order env (map (py_str env) cs))"
    and s: "set (set_order env (map (py_str env) cs)) = set (map (py_str env) cs)" by blast+
  have "set (clean_categories env cs) = JStr ` set (map (py_str env) cs)"
    by (simp add: clean_categories_def f r s)
  also have "\<dots> = set (map JStr (map (py_str env) cs))" by (simp only: set_map)
  also have "\<dots> = set cs" by (simp only: m)
  finally have 1: "set (clean_categories env cs) = set cs" .
  have 2: "distinct (clean_categories env cs)"
    using o by (simp add: clean_categories_def f r distinct_map inj_on_def)
  from 1 2 show ?thesis by simp
qed
text \<open>
  Claim C2, amended. A document saved successfully and loaded back is the original with its
  categories replaced by the distinct string forms of its non-empty categories, in the set's
  iteration order; income, expenses, budget, goals, users and every further key are equal to
  the original's. When the categories are distinct non-empty strings, the loaded ones are the
  same strings, each once.
\<close>

theorem roundtrip_normalises_categories:
  assumes "save_data (Some d) s = (Inr True, s')"
      and "\<forall>k\<in>set required_keys. k \<notin> fst ` set (other d)"
  shows "load_data env False s' = (d\<lparr>categories := clean_categories env (categories d)\<rparr>, s') \<and>
         ((\<forall>xs. distinct xs \<longrightarrow> distinct (set_order env xs) \<and> set (set_order env xs) = set xs) \<and>
          distinct (categories d) \<and> (\<forall>c\<in>set (categories d). \<exists>x. c = JStr x \<and> x \<noteq> []) \<longrightarrow>
            set (categories (fst (load_data env False s'))) = set (categories d) \<and>
            distinct (categories (fst (load_data env False s'))))"
proof -
  have f: "data_file s' = Stored (document_json d)" using assms(1) by (rule save_data_True_file)
  have l: "load_data env False s' = (d\<lparr>categories := clean_categories env (categories d)\<rparr>, s')"
    by (simp add: load_data_def f document_json_def repair_document_items[OF assms(2)])
  show ?thesis unfolding l using clean_categories_strings[of env "categories d"] by simp
qed


theorem roundtrip_normalises_categories_witness:
  "fst (save_data (Some sample_document) initial_state) = Inr True \<and>
   fst (load_data example_env False (snd (save_data (Some sample_document) initial_state))) =
     sample_document\<lparr>categories := clean_categories example_env (categories sample_document)\<rparr> \<and>
   set (categories (fst (load_data example_env False
          (snd (save_data (Some sample_document) initial_state))))) =
     {JStr ''Food'', JStr ''Rent''}"
proof -
  let ?s' = "snd (save_data (Some sample_document) initial_state)"
  have sv: "save_data (Some sample_document) initial_state = (Inr True, ?s')"
    by (simp add: save_data_def next_fault_def initial_state_def)
  have ok: "\<forall>k\<in>set required_keys. k \<notin> fst ` set (other sample_document)"
    by (simp add: required_keys_def sample_document_def)
  have ord: "\<forall>xs. distinct xs \<longrightarrow>
      distinct (set_order example_env xs) \<and> set (set_order example_env xs) = set xs"
    by (simp add: example_env_def)
  have cs: "distinct (categories sample_document) \<and>
      (\<forall>c\<in>set (categories sample_document). \<exists>x. c = JStr x \<and> x \<noteq> [])"
    by (simp add: sample_document_def)
  note r = roundtrip_normalises_categories[OF sv ok, of example_env]
  have 1: "fst (save_data (Some sample_document) initial_state) = Inr True"
    by (simp add: save_data_def next_fault_def initial_state_def)
  from r have 2: "fst (load_data example_env False ?s') =
     sample_document\<lparr>categories := clean_categories example_env (categories sample_document)\<rparr>"
    by simp
  from r ord cs
  have "set (categories (fst (load_data example_env False ?s'))) = set (categories sample_document)"
    by blast
  also have "\<dots> = {JStr ''Food'', JStr ''Rent''}"
    by (simp add: sample_document_def)
  finally have 3: "set (categories (fst (load_data example_env False ?s'))) =
     {JStr ''Food'', JStr ''Rent''}" .
  from 1 2 3 show ?thesis by (intro conjI)
qed

end
